theory Spec2Isabelle
  imports Main "HOL-Library.Sublist"
begin

section \<open>The back-handler stack of @vue-spark/back-handler\<close>

text \<open>
  A shallow embedding of the static class \<^verbatim>\<open>BackHandler\<close> and of the
  composable \<^verbatim>\<open>useBackHandler\<close>.

  The static fields of the class are one record that every operation takes and returns.
  An entry is an object compared by reference (\<^verbatim>\<open>indexOf\<close> uses \<^verbatim>\<open>===\<close>), so
  the stack holds references and an object store maps a reference to the object's field.
  The functions the code receives from outside (\<^verbatim>\<open>fallback\<close>, \<^verbatim>\<open>onPush\<close>,
  \<^verbatim>\<open>onRemove\<close>, \<^verbatim>\<open>bind\<close> and the handlers) are opaque to it: a function value is
  its identity together with whether a call of it throws, a handler's behaviour is what
  its call produces, and every call of one of them is recorded, in order, in a trace.
  A thrown exception is a result value, returned together with the state the call left.
\<close>

subsection \<open>Values, function values and results\<close>

type_synonym ref = nat

text \<open>A function value received from outside: its identity, and whether calling it throws.\<close>

record fn =
  fn_id :: nat
  fn_throws :: bool

text \<open>What a handler may produce: \<^verbatim>\<open>void | boolean\<close>.\<close>

datatype js_value = Undefined | Boolean bool

text \<open>
  The behaviour of one call of \<^verbatim>\<open>entry.handler()\<close>, of type
  \<^verbatim>\<open>void | boolean | Promise<void | boolean>\<close>: it returns a value, throws, or returns
  a promise that is fulfilled, is rejected, or is never settled.
\<close>

datatype outcome =
    Returns js_value
  | Throws
  | Resolves js_value
  | Rejects
  | NeverSettles

text \<open>What \<^verbatim>\<open>await\<close> makes of it inside the \<^verbatim>\<open>try\<close> block.\<close>

datatype settled = Value js_value | Failure | Never

fun await :: "outcome \<Rightarrow> settled" where
  "await (Returns v) = Value v"
| "await Throws = Failure"
| "await (Resolves v) = Value v"
| "await Rejects = Failure"
| "await NeverSettles = Never"

datatype error =
    NotInitialized  \<comment> \<open>\<^verbatim>\<open>new Error('BackHandler is not initialized!')\<close>\<close>
  | Thrown nat      \<comment> \<open>the exception of the function value with this identity\<close>

text \<open>The promise an \<^verbatim>\<open>async\<close> function returns.\<close>

datatype promise = Fulfilled | Rejected error | Pending

datatype event =
    ConsoleWarn string
  | CallFallback nat
  | CallOnPush nat ref
  | CallOnRemove nat ref
  | CallHandler ref
  | CallBind nat
  | CallOnUnmount

subsection \<open>\<^verbatim>\<open>BackHandlerOptions\<close> and the static fields of \<^verbatim>\<open>BackHandler\<close>\<close>

record BackHandlerOptions =
  fallback :: fn
  onPush :: "fn option"
  onRemove :: "fn option"

text \<open>
  \<^verbatim>\<open>stack\<close>, \<^verbatim>\<open>_options\<close> and \<^verbatim>\<open>isInitialized\<close> are the fields of the class;
  \<open>trace\<close> is the record of the calls made to the outside, oldest first.
\<close>

record BackHandler =
  stack :: "ref list"
  priv_options :: "BackHandlerOptions option"
  isInitialized :: bool
  trace :: "event list"

definition initial :: BackHandler where
  "initial = \<lparr>stack = [], priv_options = None, isInitialized = False, trace = []\<rparr>"

definition emit :: "event \<Rightarrow> BackHandler \<Rightarrow> BackHandler" where
  "emit ev s = s\<lparr>trace := trace s @ [ev]\<rparr>"

text \<open>Calling a function value: the call is recorded, then it returns or throws.\<close>

definition call :: "fn \<Rightarrow> event \<Rightarrow> BackHandler \<Rightarrow> (error + unit) \<times> BackHandler" where
  "call f ev s = (if fn_throws f then Inl (Thrown (fn_id f)) else Inr (), emit ev s)"

text \<open>The getter \<^verbatim>\<open>options\<close>.\<close>

definition options :: "BackHandler \<Rightarrow> error + BackHandlerOptions" where
  "options s = (case priv_options s of None \<Rightarrow> Inl NotInitialized | Some opts \<Rightarrow> Inr opts)"

subsection \<open>\<^verbatim>\<open>init\<close> and \<^verbatim>\<open>destroy\<close>\<close>

definition init :: "BackHandlerOptions \<Rightarrow> BackHandler \<Rightarrow> BackHandler" where
  "init opts s =
     (if isInitialized s then emit (ConsoleWarn ''BackHandler is already initialized!'') s
      else s\<lparr>isInitialized := True, priv_options := Some opts\<rparr>)"

definition destroy :: "BackHandler \<Rightarrow> BackHandler" where
  "destroy s = s\<lparr>stack := [], priv_options := None, isInitialized := False\<rparr>"

subsection \<open>\<^verbatim>\<open>push\<close> and \<^verbatim>\<open>remove\<close>\<close>

text \<open>\<^verbatim>\<open>this.options.onPush?.(entry)\<close>: the optional call of an observer.\<close>

definition call_opt :: "fn option \<Rightarrow> (nat \<Rightarrow> event) \<Rightarrow> BackHandler \<Rightarrow> (error + unit) \<times> BackHandler" where
  "call_opt f ev s = (case f of None \<Rightarrow> (Inr (), s) | Some g \<Rightarrow> call g (ev (fn_id g)) s)"

definition push :: "ref \<Rightarrow> BackHandler \<Rightarrow> (error + unit) \<times> BackHandler" where
  "push entry s =
     (let s1 = s\<lparr>stack := stack s @ [entry]\<rparr>
      in case options s1 of
           Inl err \<Rightarrow> (Inl err, s1)
         | Inr opts \<Rightarrow> call_opt (onPush opts) (\<lambda>i. CallOnPush i entry) s1)"

text \<open>
  \<^verbatim>\<open>Array.prototype.indexOf\<close>: the first index holding the element, compared by
  identity, or \<open>-1\<close>.
\<close>

fun indexOf_from :: "ref list \<Rightarrow> ref \<Rightarrow> nat \<Rightarrow> int" where
  "indexOf_from [] e k = - 1"
| "indexOf_from (x # xs) e k = (if x = e then int k else indexOf_from xs e (Suc k))"

definition indexOf :: "ref list \<Rightarrow> ref \<Rightarrow> int" where
  "indexOf xs e = indexOf_from xs e 0"

text \<open>\<^verbatim>\<open>splice(start, deleteCount)\<close> for a start inside the array.\<close>

definition splice :: "ref list \<Rightarrow> nat \<Rightarrow> nat \<Rightarrow> ref list" where
  "splice xs start deleteCount = take start xs @ drop (start + deleteCount) xs"

definition remove :: "ref \<Rightarrow> BackHandler \<Rightarrow> (error + unit) \<times> BackHandler" where
  "remove entry s =
     (let index = indexOf (stack s) entry
      in if index > - 1 then
           (let s1 = s\<lparr>stack := splice (stack s) (nat index) 1\<rparr>
            in case options s1 of
                 Inl err \<Rightarrow> (Inl err, s1)
               | Inr opts \<Rightarrow> call_opt (onRemove opts) (\<lambda>i. CallOnRemove i entry) s1)
         else (Inr (), s))"

subsection \<open>\<^verbatim>\<open>onBackPress\<close>\<close>

text \<open>
  The function is \<^verbatim>\<open>async\<close> and suspends once, at \<^verbatim>\<open>await entry.handler()\<close>.
  \<open>onBackPress_enter\<close> is the part that runs when it is called: with a stack that is
  not empty it reads the top entry and calls its handler, and suspends; with an empty
  stack it calls the fallback and is done. An entry is an object, so the test
  \<^verbatim>\<open>if (entry)\<close> on it succeeds. \<open>onBackPress_resume\<close> is the part that runs when
  the handler's result has settled, on the state of that moment. An exception of
  \<^verbatim>\<open>this.remove(entry)\<close> is thrown inside the \<^verbatim>\<open>try\<close> block and ends in its
  \<^verbatim>\<open>catch\<close>.
\<close>

datatype step = Done promise | Suspended ref

definition onBackPress_enter :: "BackHandler \<Rightarrow> step \<times> BackHandler" where
  "onBackPress_enter s =
     (if length (stack s) \<noteq> 0 then
        (let entry = stack s ! (length (stack s) - 1)
         in (Suspended entry, emit (CallHandler entry) s))
      else
        (case options s of
           Inl err \<Rightarrow> (Done (Rejected err), s)
         | Inr opts \<Rightarrow>
             (case call (fallback opts) (CallFallback (fn_id (fallback opts))) s of
                (Inl err, s1) \<Rightarrow> (Done (Rejected err), s1)
              | (Inr u, s1) \<Rightarrow> (Done Fulfilled, s1))))"

definition onBackPress_resume :: "ref \<Rightarrow> settled \<Rightarrow> BackHandler \<Rightarrow> promise \<times> BackHandler" where
  "onBackPress_resume entry r s =
     (case r of
        Value result \<Rightarrow>
          (if result \<noteq> Boolean False then (Fulfilled, snd (remove entry s))
           else (Fulfilled, s))
      | Failure \<Rightarrow> (Fulfilled, s)
      | Never \<Rightarrow> (Pending, s))"

text \<open>
  A whole dispatch with nothing else running between the call of the handler and its
  result; \<open>h entry\<close> is what the handler of \<open>entry\<close> does when called.
\<close>

definition onBackPress :: "(ref \<Rightarrow> outcome) \<Rightarrow> BackHandler \<Rightarrow> promise \<times> BackHandler" where
  "onBackPress h s =
     (case onBackPress_enter s of
        (Done p, s1) \<Rightarrow> (p, s1)
      | (Suspended entry, s1) \<Rightarrow> onBackPress_resume entry (await (h entry)) s1)"

subsection \<open>\<^verbatim>\<open>install\<close>\<close>

text \<open>
  \<^verbatim>\<open>options.bind(() => this.onBackPress())\<close> and
  \<^verbatim>\<open>app.onUnmount(() => this.destroy())\<close> hand closures to the outside; the calls are
  recorded.
\<close>

definition install :: "BackHandlerOptions \<Rightarrow> fn \<Rightarrow> BackHandler \<Rightarrow> (error + unit) \<times> BackHandler" where
  "install opts bind s =
     (if isInitialized s then (Inr (), s)
      else
        (let s1 = init opts s
         in case call bind (CallBind (fn_id bind)) s1 of
              (Inl err, s2) \<Rightarrow> (Inl err, s2)
            | (Inr u, s2) \<Rightarrow> (Inr (), emit CallOnUnmount s2)))"

subsection \<open>\<^verbatim>\<open>useBackHandler\<close>\<close>

record BackHandlerEntry =
  handler :: nat

text \<open>
  The objects allocated so far, a reference being an index, and the class.
\<close>

record world =
  heap :: "BackHandlerEntry list"
  backHandler :: BackHandler

text \<open>The closure of one call of \<^verbatim>\<open>useBackHandler(showing, onHide)\<close>.\<close>

record binding =
  entry :: "ref option"
  onHide :: nat

definition useBackHandler :: "nat \<Rightarrow> binding" where
  "useBackHandler hide = \<lparr>entry = None, onHide = hide\<rparr>"

definition useBackHandler_remove :: "binding \<Rightarrow> world \<Rightarrow> (error + unit) \<times> binding \<times> world" where
  "useBackHandler_remove b w =
     (case entry b of
        Some e \<Rightarrow>
          (case remove e (backHandler w) of
             (Inl err, s1) \<Rightarrow> (Inl err, b, w\<lparr>backHandler := s1\<rparr>)
           | (Inr u, s1) \<Rightarrow> (Inr (), b\<lparr>entry := None\<rparr>, w\<lparr>backHandler := s1\<rparr>))
      | None \<Rightarrow> (Inr (), b, w))"

definition useBackHandler_push :: "binding \<Rightarrow> world \<Rightarrow> (error + unit) \<times> binding \<times> world" where
  "useBackHandler_push b w =
     (let e = length (heap w);
          w1 = w\<lparr>heap := heap w @ [\<lparr>handler = onHide b\<rparr>]\<rparr>;
          b1 = b\<lparr>entry := Some e\<rparr>
      in case push e (backHandler w1) of
           (r, s1) \<Rightarrow> (r, b1, w1\<lparr>backHandler := s1\<rparr>))"

text \<open>
  The callback given to \<^verbatim>\<open>onScopeDispose\<close>: \<^verbatim>\<open>toValue(showing) && remove()\<close>,
  \<open>showing\<close> being the value the source has when the scope is disposed.
\<close>

definition onScopeDispose :: "bool \<Rightarrow> binding \<Rightarrow> world \<Rightarrow> (error + unit) \<times> binding \<times> world" where
  "onScopeDispose showing b w = (if showing then useBackHandler_remove b w else (Inr (), b, w))"

subsection \<open>Sequences of \<^verbatim>\<open>push\<close> and \<^verbatim>\<open>remove\<close>\<close>

datatype op = Push ref | Remove ref

text \<open>
  The calls are made one after the other, by callers that go on after an exception.
\<close>

fun run :: "op list \<Rightarrow> BackHandler \<Rightarrow> BackHandler" where
  "run [] s = s"
| "run (Push e # ops) s = run ops (snd (push e s))"
| "run (Remove e # ops) s = run ops (snd (remove e s))"

fun pushed :: "op list \<Rightarrow> ref list" where
  "pushed [] = []"
| "pushed (Push e # ops) = e # pushed ops"
| "pushed (Remove e # ops) = pushed ops"

subsection \<open>Example configurations\<close>

text \<open>Three observers that return, and the same three throwing.\<close>

definition example_options :: BackHandlerOptions where
  "example_options =
     \<lparr>fallback = \<lparr>fn_id = 0, fn_throws = False\<rparr>,
      onPush = Some \<lparr>fn_id = 1, fn_throws = False\<rparr>,
      onRemove = Some \<lparr>fn_id = 2, fn_throws = False\<rparr>\<rparr>"

definition throwing_options :: BackHandlerOptions where
  "throwing_options =
     \<lparr>fallback = \<lparr>fn_id = 0, fn_throws = True\<rparr>,
      onPush = Some \<lparr>fn_id = 1, fn_throws = True\<rparr>,
      onRemove = Some \<lparr>fn_id = 2, fn_throws = True\<rparr>\<rparr>"

text \<open>The class after \<^verbatim>\<open>init\<close>, with an empty stack.\<close>

definition ready :: BackHandler where
  "ready = init example_options initial"

text \<open>
  A binding after its \<^verbatim>\<open>push()\<close> on \<open>ready\<close>, and the world after a dispatch whose
  handler returned no value: the dispatch took the entry off the stack, and the closure
  still holds it.
\<close>

definition pushed_binding :: binding where
  "pushed_binding = \<lparr>entry = Some 0, onHide = 9\<rparr>"

definition pushed_world :: world where
  "pushed_world = \<lparr>heap = [\<lparr>handler = 9\<rparr>], backHandler = snd (push 0 ready)\<rparr>"

definition popped_world :: world where
  "popped_world =
     pushed_world\<lparr>backHandler :=
       snd (onBackPress (\<lambda>e. Returns Undefined) (backHandler pushed_world))\<rparr>"

section \<open>Properties\<close>

subsection \<open>\<^verbatim>\<open>indexOf\<close>, \<^verbatim>\<open>splice\<close> and the two mutations\<close>

lemma indexOf_from_absent: "e \<notin> set xs \<Longrightarrow> indexOf_from xs e k = - 1"
  by (induction xs arbitrary: k) auto

lemma indexOf_from_first:
  "e \<in> set xs \<Longrightarrow> indexOf_from xs e k = int (k + length (takeWhile (\<lambda>x. x \<noteq> e) xs))"
  by (induction xs arbitrary: k) auto

lemma indexOf_present: "e \<in> set xs \<Longrightarrow> indexOf xs e = int (length (takeWhile (\<lambda>x. x \<noteq> e) xs))"
  by (simp add: indexOf_def indexOf_from_first)

lemma indexOf_absent: "e \<notin> set xs \<Longrightarrow> indexOf xs e = - 1"
  by (simp add: indexOf_def indexOf_from_absent)

lemma indexOf_found_iff: "(indexOf xs e > - 1) = (e \<in> set xs)"
  by (cases "e \<in> set xs") (simp_all add: indexOf_present indexOf_absent)

lemma splice_first:
  "e \<in> set xs \<Longrightarrow>
   take (length (takeWhile (\<lambda>x. x \<noteq> e) xs)) xs
     @ drop (Suc (length (takeWhile (\<lambda>x. x \<noteq> e) xs))) xs = remove1 e xs"
  by (induction xs) auto

lemma splice_indexOf: "e \<in> set xs \<Longrightarrow> splice xs (nat (indexOf xs e)) (Suc 0) = remove1 e xs"
  by (simp add: indexOf_present splice_def splice_first)

lemma remove_absent: "e \<notin> set (stack s) \<Longrightarrow> remove e s = (Inr (), s)"
  by (simp add: remove_def indexOf_absent)

lemma remove_present:
  "e \<in> set (stack s) \<Longrightarrow>
   remove e s =
     (case priv_options s of
        None \<Rightarrow> (Inl NotInitialized, s\<lparr>stack := remove1 e (stack s)\<rparr>)
      | Some opts \<Rightarrow>
          (case onRemove opts of
             None \<Rightarrow> (Inr (), s\<lparr>stack := remove1 e (stack s)\<rparr>)
           | Some f \<Rightarrow>
               (if fn_throws f then Inl (Thrown (fn_id f)) else Inr (),
                s\<lparr>stack := remove1 e (stack s), trace := trace s @ [CallOnRemove (fn_id f) e]\<rparr>)))"
  by (simp add: remove_def indexOf_found_iff splice_indexOf options_def call_opt_def call_def emit_def
      split: option.splits)

lemma stack_remove: "stack (snd (remove e s)) = remove1 e (stack s)"
  by (cases "e \<in> set (stack s)")
     (simp_all add: remove_present remove_absent remove1_idem split: option.splits)

lemma push_eq:
  "push e s =
     (case priv_options s of
        None \<Rightarrow> (Inl NotInitialized, s\<lparr>stack := stack s @ [e]\<rparr>)
      | Some opts \<Rightarrow>
          (case onPush opts of
             None \<Rightarrow> (Inr (), s\<lparr>stack := stack s @ [e]\<rparr>)
           | Some f \<Rightarrow>
               (if fn_throws f then Inl (Thrown (fn_id f)) else Inr (),
                s\<lparr>stack := stack s @ [e], trace := trace s @ [CallOnPush (fn_id f) e]\<rparr>)))"
  by (simp add: push_def options_def call_opt_def call_def emit_def Let_def split: option.splits)

lemma stack_push: "stack (snd (push e s)) = stack s @ [e]"
  by (simp add: push_eq split: option.splits)

subsection \<open>The two phases of a dispatch\<close>

lemma trace_remove:
  "trace (snd (remove e s)) = trace s \<or> (\<exists>i. trace (snd (remove e s)) = trace s @ [CallOnRemove i e])"
  by (cases "e \<in> set (stack s)")
     (auto simp: remove_present remove_absent split: option.splits)

lemma onBackPress_nonempty:
  "stack s \<noteq> [] \<Longrightarrow>
   onBackPress h s =
     onBackPress_resume (last (stack s)) (await (h (last (stack s))))
       (emit (CallHandler (last (stack s))) s)"
  by (simp add: onBackPress_def onBackPress_enter_def Let_def last_conv_nth)

lemma onBackPress_empty:
  "stack s = [] \<Longrightarrow>
   onBackPress h s =
     (case priv_options s of
        None \<Rightarrow> (Rejected NotInitialized, s)
      | Some opts \<Rightarrow>
          (if fn_throws (fallback opts) then Rejected (Thrown (fn_id (fallback opts))) else Fulfilled,
           emit (CallFallback (fn_id (fallback opts))) s))"
  by (simp add: onBackPress_def onBackPress_enter_def options_def call_def split: option.splits)

lemma resume_keeps:
  "r = Value (Boolean False) \<or> r = Failure \<Longrightarrow> onBackPress_resume e r s = (Fulfilled, s)"
  by (auto simp: onBackPress_resume_def)

lemma resume_removes:
  "v \<noteq> Boolean False \<Longrightarrow> onBackPress_resume e (Value v) s = (Fulfilled, snd (remove e s))"
  by (simp add: onBackPress_resume_def)

lemma trace_resume:
  "trace (snd (onBackPress_resume e r s)) = trace s
   \<or> (\<exists>i. trace (snd (onBackPress_resume e r s)) = trace s @ [CallOnRemove i e])"
  using trace_remove [of e s]
  by (auto simp: onBackPress_resume_def split: settled.splits)

lemma stack_emit [simp]: "stack (emit ev s) = stack s"
  by (simp add: emit_def)

lemma options_emit [simp]: "priv_options (emit ev s) = priv_options s"
  by (simp add: emit_def)

lemma trace_emit [simp]: "trace (emit ev s) = trace s @ [ev]"
  by (simp add: emit_def)

subsection \<open>Sequences, and the scope's disposal\<close>

lemma filter_remove1_others: "filter (\<lambda>x. x \<noteq> e) (remove1 e xs) = filter (\<lambda>x. x \<noteq> e) xs"
  by (induction xs) auto

lemma subseq_remove1: "subseq (remove1 e xs) xs"
  by (induction xs) auto

lemma subseq_run: "subseq (stack (run ops s)) (stack s @ pushed ops)"
proof (induction ops s rule: run.induct)
  case (1 s)
  show ?case by simp
next
  case (2 e ops s)
  then show ?case by (simp add: stack_push)
next
  case (3 e ops s)
  have "subseq (stack (snd (remove e s)) @ pushed ops) (stack s @ pushed ops)"
    by (simp add: stack_remove subseq_remove1 list_emb_append_mono)
  with 3 show ?case
    using subseq_order.trans by fastforce
qed

lemma useBackHandler_remove_world:
  "entry b = Some e \<Longrightarrow>
   backHandler (snd (snd (useBackHandler_remove b w))) = snd (remove e (backHandler w))"
  by (simp add: useBackHandler_remove_def split: prod.splits sum.splits)

section \<open>The claims\<close>

text \<open>
  Claim C1. A dispatch on a stack that is not empty calls the handler of the entry at
  index \<open>length - 1\<close> and no other handler. When that handler's result settles to a
  value other than \<open>false\<close>, the dispatch ends as \<open>remove\<close> of that entry ends, so
  the stack loses the first occurrence of the entry and a configured \<open>onRemove\<close> is
  called with it. After \<open>push a\<close> and \<open>push b\<close> of a new entry \<open>b\<close>, the stack is
  back to what it was with \<open>a\<close> on top.
\<close>

theorem dispatch_calls_top_and_removes:
  assumes nonempty: "stack s \<noteq> []"
  shows "(\<exists>evs. trace (snd (onBackPress h s)) = trace s @ CallHandler (last (stack s)) # evs
            \<and> (\<forall>r. CallHandler r \<notin> set evs))
    \<and> (\<forall>v. await (h (last (stack s))) = Value v \<and> v \<noteq> Boolean False \<longrightarrow>
          onBackPress h s
            = (Fulfilled, snd (remove (last (stack s)) (emit (CallHandler (last (stack s))) s)))
          \<and> stack (snd (onBackPress h s)) = remove1 (last (stack s)) (stack s)
          \<and> (\<forall>opts f. priv_options s = Some opts \<and> onRemove opts = Some f \<longrightarrow>
                trace (snd (onBackPress h s))
                  = trace s @ [CallHandler (last (stack s)), CallOnRemove (fn_id f) (last (stack s))])
          \<and> (\<forall>s0 a b. s = snd (push b (snd (push a s0))) \<and> b \<noteq> a \<and> b \<notin> set (stack s0) \<longrightarrow>
                stack (snd (onBackPress h s)) = stack s0 @ [a]
                \<and> last (stack (snd (onBackPress h s))) = a))"
proof (intro conjI allI impI)
  let ?top = "last (stack s)"
  let ?s1 = "emit (CallHandler ?top) s"
  have run: "onBackPress h s = onBackPress_resume ?top (await (h ?top)) ?s1"
    using nonempty by (rule onBackPress_nonempty)
  from trace_resume [of ?top "await (h ?top)" ?s1]
  show "\<exists>evs. trace (snd (onBackPress h s)) = trace s @ CallHandler ?top # evs
          \<and> (\<forall>r. CallHandler r \<notin> set evs)"
    unfolding run by auto
next
  fix v
  let ?top = "last (stack s)"
  let ?s1 = "emit (CallHandler ?top) s"
  assume "await (h ?top) = Value v \<and> v \<noteq> Boolean False"
  then have run: "onBackPress h s = (Fulfilled, snd (remove ?top ?s1))"
    using nonempty by (simp add: onBackPress_nonempty resume_removes)
  show "onBackPress h s = (Fulfilled, snd (remove ?top ?s1))"
    by (rule run)
  show removed: "stack (snd (onBackPress h s)) = remove1 ?top (stack s)"
    by (simp add: run stack_remove)
  {
    fix opts f
    assume "priv_options s = Some opts \<and> onRemove opts = Some f"
    moreover have "?top \<in> set (stack ?s1)"
      using nonempty by simp
    ultimately show "trace (snd (onBackPress h s))
        = trace s @ [CallHandler ?top, CallOnRemove (fn_id f) ?top]"
      by (simp add: run remove_present)
  }
  {
    fix s0 a b
    assume scen: "s = snd (push b (snd (push a s0))) \<and> b \<noteq> a \<and> b \<notin> set (stack s0)"
    then have st: "stack s = stack s0 @ [a, b]"
      by (simp add: stack_push)
    then have "remove1 ?top (stack s) = stack s0 @ [a]"
      using scen by (simp add: remove1_append)
    then show "stack (snd (onBackPress h s)) = stack s0 @ [a]"
      using removed by simp
    then show "last (stack (snd (onBackPress h s))) = a"
      by simp
  }
qed

theorem dispatch_calls_top_and_removes_witness:
  "stack (snd (push 2 (snd (push 1 ready)))) \<noteq> []
   \<and> await (Resolves Undefined) = Value Undefined \<and> Undefined \<noteq> Boolean False
   \<and> onBackPress (\<lambda>e. Resolves Undefined) (snd (push 2 (snd (push 1 ready))))
       = (Fulfilled,
          \<lparr>stack = [1], priv_options = Some example_options, isInitialized = True,
             trace = [CallOnPush 1 1, CallOnPush 1 2, CallHandler 2, CallOnRemove 2 2]\<rparr>)"
  using dispatch_calls_top_and_removes
    [of "snd (push 2 (snd (push 1 ready)))" "\<lambda>e. Resolves Undefined"]
  by (simp add: push_eq remove_present ready_def init_def initial_def example_options_def emit_def)

text \<open>
  Claim C2. When the top handler's result settles to \<open>false\<close>, or the handler throws
  or its promise is rejected, the dispatch is fulfilled, the stack is the one it found,
  and the handler's call is the only call made: the fallback is not called. The second
  phase leaves any state it resumes on as it is.
\<close>

theorem dispatch_keeps_on_false_or_failure:
  assumes "stack s \<noteq> []"
    and "await (h (last (stack s))) = Value (Boolean False) \<or> await (h (last (stack s))) = Failure"
  shows "onBackPress h s = (Fulfilled, emit (CallHandler (last (stack s))) s)
    \<and> fst (onBackPress h s) = Fulfilled
    \<and> stack (snd (onBackPress h s)) = stack s
    \<and> length (stack (snd (onBackPress h s))) = length (stack s)
    \<and> trace (snd (onBackPress h s)) = trace s @ [CallHandler (last (stack s))]
    \<and> (\<forall>s'. onBackPress_resume (last (stack s)) (await (h (last (stack s)))) s' = (Fulfilled, s'))"
  using assms by (simp add: onBackPress_nonempty resume_keeps)

theorem dispatch_keeps_on_false_or_failure_witness:
  "stack (snd (push 1 ready)) \<noteq> []
   \<and> await (Returns (Boolean False)) = Value (Boolean False) \<and> await Rejects = Failure
   \<and> onBackPress (\<lambda>e. Returns (Boolean False)) (snd (push 1 ready))
       = (Fulfilled,
          \<lparr>stack = [1], priv_options = Some example_options, isInitialized = True,
             trace = [CallOnPush 1 1, CallHandler 1]\<rparr>)
   \<and> onBackPress (\<lambda>e. Rejects) (snd (push 1 ready))
       = (Fulfilled,
          \<lparr>stack = [1], priv_options = Some example_options, isInitialized = True,
             trace = [CallOnPush 1 1, CallHandler 1]\<rparr>)"
  using dispatch_keeps_on_false_or_failure [of "snd (push 1 ready)" "\<lambda>e. Returns (Boolean False)"]
    dispatch_keeps_on_false_or_failure [of "snd (push 1 ready)" "\<lambda>e. Rejects"]
  by (simp add: push_eq ready_def init_def initial_def example_options_def emit_def)

text \<open>
  Claim C3. A dispatch on the empty stack of an initialized class calls the fallback
  once and leaves the stack as it is; a dispatch on a stack that is not empty makes no
  call of the fallback, whatever the handler does.
\<close>

theorem fallback_only_on_empty_stack:
  "(stack s = [] \<and> priv_options s = Some opts \<longrightarrow>
      snd (onBackPress h s) = emit (CallFallback (fn_id (fallback opts))) s
      \<and> trace (snd (onBackPress h s)) = trace s @ [CallFallback (fn_id (fallback opts))]
      \<and> stack (snd (onBackPress h s)) = stack s)
   \<and> (stack s \<noteq> [] \<longrightarrow>
      (\<exists>evs. trace (snd (onBackPress h s)) = trace s @ evs \<and> (\<forall>i. CallFallback i \<notin> set evs)))"
proof (intro conjI impI)
  assume "stack s = [] \<and> priv_options s = Some opts"
  then have run: "snd (onBackPress h s) = emit (CallFallback (fn_id (fallback opts))) s"
    by (simp add: onBackPress_empty)
  show "snd (onBackPress h s) = emit (CallFallback (fn_id (fallback opts))) s"
    by (rule run)
  show "trace (snd (onBackPress h s)) = trace s @ [CallFallback (fn_id (fallback opts))]"
    by (simp add: run)
  show "stack (snd (onBackPress h s)) = stack s"
    by (simp add: run)
next
  let ?top = "last (stack s)"
  let ?s1 = "emit (CallHandler ?top) s"
  assume "stack s \<noteq> []"
  then have run: "onBackPress h s = onBackPress_resume ?top (await (h ?top)) ?s1"
    by (rule onBackPress_nonempty)
  from trace_resume [of ?top "await (h ?top)" ?s1]
  show "\<exists>evs. trace (snd (onBackPress h s)) = trace s @ evs \<and> (\<forall>i. CallFallback i \<notin> set evs)"
    unfolding run by auto
qed

theorem fallback_only_on_empty_stack_witness:
  "stack ready = [] \<and> priv_options ready = Some example_options
   \<and> trace (snd (onBackPress (\<lambda>e. Returns Undefined) ready)) = [CallFallback 0]
   \<and> stack (snd (onBackPress (\<lambda>e. Returns Undefined) ready)) = []
   \<and> stack (snd (push 1 ready)) \<noteq> []
   \<and> trace (snd (onBackPress (\<lambda>e. Returns Undefined) (snd (push 1 ready))))
       = trace (snd (push 1 ready)) @ [CallHandler 1, CallOnRemove 2 1]"
  using fallback_only_on_empty_stack [of ready example_options "\<lambda>e. Returns Undefined"]
    fallback_only_on_empty_stack [of "snd (push 1 ready)" example_options "\<lambda>e. Returns Undefined"]
  by (simp add: push_eq remove_present onBackPress_nonempty resume_removes
      ready_def init_def initial_def example_options_def emit_def)

text \<open>
  Claim C4. \<open>remove\<close> of an entry on the stack takes out the first slot holding it,
  and only that one, and calls the configured \<open>onRemove\<close> with it once; \<open>remove\<close>
  of an entry that is not on the stack returns normally and changes nothing, so that no
  observer is called.
\<close>

theorem remove_first_occurrence_only:
  "(e \<in> set (stack s) \<longrightarrow>
      (\<exists>ls rs. stack s = ls @ e # rs \<and> e \<notin> set ls \<and> stack (snd (remove e s)) = ls @ rs)
      \<and> Suc (length (stack (snd (remove e s)))) = length (stack s)
      \<and> Suc (count_list (stack (snd (remove e s))) e) = count_list (stack s) e
      \<and> (\<forall>opts f. priv_options s = Some opts \<and> onRemove opts = Some f \<longrightarrow>
            trace (snd (remove e s)) = trace s @ [CallOnRemove (fn_id f) e]))
   \<and> (e \<notin> set (stack s) \<longrightarrow> remove e s = (Inr (), s))"
proof (intro conjI impI allI)
  assume present: "e \<in> set (stack s)"
  then obtain ls rs where split: "stack s = ls @ e # rs" "e \<notin> set ls"
    by (meson split_list_first)
  have after: "stack (snd (remove e s)) = ls @ rs"
    using split by (simp add: stack_remove remove1_append)
  show "\<exists>ls rs. stack s = ls @ e # rs \<and> e \<notin> set ls \<and> stack (snd (remove e s)) = ls @ rs"
    using split after by blast
  show "Suc (length (stack (snd (remove e s)))) = length (stack s)"
    using split after by simp
  show "Suc (count_list (stack (snd (remove e s))) e) = count_list (stack s) e"
    using split after by simp
next
  fix opts f
  assume "e \<in> set (stack s)" and "priv_options s = Some opts \<and> onRemove opts = Some f"
  then show "trace (snd (remove e s)) = trace s @ [CallOnRemove (fn_id f) e]"
    by (simp add: remove_present)
next
  assume "e \<notin> set (stack s)"
  then show "remove e s = (Inr (), s)"
    by (rule remove_absent)
qed

theorem remove_first_occurrence_only_witness:
  "1 \<in> set [3, 1, 2, 1 :: nat] \<and> 5 \<notin> set [3, 1, 2, 1 :: nat]
   \<and> stack (snd (remove 1 (ready\<lparr>stack := [3, 1, 2, 1]\<rparr>))) = [3, 2, 1]
   \<and> trace (snd (remove 1 (ready\<lparr>stack := [3, 1, 2, 1]\<rparr>))) = [CallOnRemove 2 1]
   \<and> remove 5 (ready\<lparr>stack := [3, 1, 2, 1]\<rparr>) = (Inr (), ready\<lparr>stack := [3, 1, 2, 1]\<rparr>)"
  using remove_first_occurrence_only [of 1 "ready\<lparr>stack := [3, 1, 2, 1]\<rparr>"]
    remove_first_occurrence_only [of 5 "ready\<lparr>stack := [3, 1, 2, 1]\<rparr>"]
  by (simp add: remove_def indexOf_def splice_def options_def call_opt_def call_def emit_def
      ready_def init_def initial_def example_options_def)

text \<open>
  Claim C5. After any sequence of \<open>push\<close> and \<open>remove\<close> calls the stack is a
  subsequence of the entries it held followed by the pushed entries in the order of their
  pushes; a \<open>remove\<close> leaves the other entries in their order; \<open>push\<close> appends
  the entry whatever the stack holds, so an entry already there gets one more slot.
\<close>

theorem order_kept_and_push_appends:
  "subseq (stack (run ops s)) (stack s @ pushed ops)
   \<and> filter (\<lambda>x. x \<noteq> e) (stack (snd (remove e s))) = filter (\<lambda>x. x \<noteq> e) (stack s)
   \<and> stack (snd (push e s)) = stack s @ [e]
   \<and> count_list (stack (snd (push e s))) e = Suc (count_list (stack s) e)"
  by (simp add: subseq_run stack_remove stack_push filter_remove1_others)

theorem order_kept_and_push_appends_witness:
  "stack (run [Push 1, Push 2, Push 3, Push 2, Remove 2, Push 1, Remove 3] ready) = [1, 2, 1]
   \<and> pushed [Push 1, Push 2, Push 3, Push 2, Remove 2, Push 1, Remove 3] = [1, 2, 3, 2, 1]
   \<and> stack (snd (remove 2 (ready\<lparr>stack := [1, 2, 3, 2]\<rparr>))) = [1, 3, 2]
   \<and> stack (snd (push 2 (ready\<lparr>stack := [1, 2, 3]\<rparr>))) = [1, 2, 3, 2]"
  using order_kept_and_push_appends
    [of "[Push 1, Push 2, Push 3, Push 2, Remove 2, Push 1, Remove 3]" ready 2]
  by (simp add: stack_push stack_remove ready_def init_def initial_def)

text \<open>
  Claim C6, amended. On an initialized class \<open>init\<close> only writes the warning and
  \<open>install\<close> returns at once, without a warning and without a call of \<open>bind\<close>;
  neither throws, and the stack, the flag and the options stay: the fallback a later
  dispatch calls is the one configured first.
\<close>

theorem init_again_keeps_configuration:
  "isInitialized s \<Longrightarrow>
     init opts s = emit (ConsoleWarn ''BackHandler is already initialized!'') s
     \<and> priv_options (init opts s) = priv_options s
     \<and> stack (init opts s) = stack s
     \<and> isInitialized (init opts s)
     \<and> install opts bind s = (Inr (), s)
     \<and> (\<forall>opts0 h. priv_options s = Some opts0 \<and> stack s = [] \<longrightarrow>
           trace (snd (onBackPress h (init opts s)))
             = trace (init opts s) @ [CallFallback (fn_id (fallback opts0))])"
  by (simp add: init_def install_def onBackPress_empty emit_def)

theorem init_again_keeps_configuration_witness:
  "isInitialized ready
   \<and> init throwing_options ready
       = \<lparr>stack = [], priv_options = Some example_options, isInitialized = True,
            trace = [ConsoleWarn ''BackHandler is already initialized!'']\<rparr>
   \<and> install throwing_options \<lparr>fn_id = 3, fn_throws = False\<rparr> ready = (Inr (), ready)
   \<and> trace (snd (onBackPress (\<lambda>e. Returns Undefined) (init throwing_options ready)))
       = [ConsoleWarn ''BackHandler is already initialized!'', CallFallback 0]"
  using init_again_keeps_configuration
    [of ready throwing_options "\<lparr>fn_id = 3, fn_throws = False\<rparr>"]
  by (simp add: ready_def init_def initial_def example_options_def emit_def)

text \<open>
  Claim C6 as stated has \<open>install\<close> on an initialized class warn. It does not: the
  trace stays empty.
\<close>

theorem install_again_is_silent:
  "isInitialized ready
   \<and> trace (snd (install throwing_options \<lparr>fn_id = 3, fn_throws = False\<rparr> ready)) = []"
  by (simp add: install_def ready_def init_def initial_def)

text \<open>
  Claim C7. The getter \<open>options\<close> throws the not-initialized error when no options are
  set, as before \<open>init\<close> and after \<open>destroy\<close>. \<open>destroy\<close> empties the stack,
  clears the options and the flag in every state, and a second \<open>destroy\<close> changes
  nothing.
\<close>

theorem options_guard_and_destroy:
  "options initial = Inl NotInitialized
   \<and> (priv_options s = None \<longrightarrow> options s = Inl NotInitialized)
   \<and> options (destroy s) = Inl NotInitialized
   \<and> stack (destroy s) = []
   \<and> priv_options (destroy s) = None
   \<and> \<not> isInitialized (destroy s)
   \<and> destroy (destroy s) = destroy s"
  by (simp add: options_def destroy_def initial_def)

theorem options_guard_and_destroy_witness:
  "priv_options initial = None \<and> options initial = Inl NotInitialized
   \<and> options (destroy (snd (push 1 ready))) = Inl NotInitialized
   \<and> destroy (snd (push 1 ready)) = \<lparr>stack = [], priv_options = None, isInitialized = False,
        trace = [CallOnPush 1 1]\<rparr>
   \<and> destroy (destroy (snd (push 1 ready))) = destroy (snd (push 1 ready))"
  using options_guard_and_destroy [of initial] options_guard_and_destroy [of "snd (push 1 ready)"]
  by (simp add: push_eq destroy_def ready_def init_def initial_def example_options_def)

text \<open>
  Claim C8, amended. For a binding that owns an entry: when the scope is disposed while
  \<open>showing\<close> is true, \<open>remove\<close> is called with the entry; an entry that is on the
  stack is removed and the stack is one shorter, and for an entry that is no longer on
  the stack the stack stays as it is and the binding lets the entry go. While
  \<open>showing\<close> is false nothing happens: an entry on the stack stays on it.
\<close>

theorem dispose_removes_only_when_showing:
  assumes "entry b = Some e"
  shows "stack (backHandler (snd (snd (onScopeDispose True b w)))) = remove1 e (stack (backHandler w))
    \<and> (e \<in> set (stack (backHandler w)) \<longrightarrow>
          Suc (length (stack (backHandler (snd (snd (onScopeDispose True b w))))))
            = length (stack (backHandler w)))
    \<and> (e \<notin> set (stack (backHandler w)) \<longrightarrow>
          onScopeDispose True b w = (Inr (), b\<lparr>entry := None\<rparr>, w))
    \<and> onScopeDispose False b w = (Inr (), b, w)
    \<and> (e \<in> set (stack (backHandler w)) \<longrightarrow>
          e \<in> set (stack (backHandler (snd (snd (onScopeDispose False b w))))))"
proof (intro conjI impI)
  show after: "stack (backHandler (snd (snd (onScopeDispose True b w))))
      = remove1 e (stack (backHandler w))"
    using assms by (simp add: onScopeDispose_def useBackHandler_remove_world stack_remove)
  show "onScopeDispose False b w = (Inr (), b, w)"
    by (simp add: onScopeDispose_def)
  then show "e \<in> set (stack (backHandler (snd (snd (onScopeDispose False b w)))))"
    if "e \<in> set (stack (backHandler w))"
    using that by simp
  show "Suc (length (stack (backHandler (snd (snd (onScopeDispose True b w))))))
      = length (stack (backHandler w))"
    if present: "e \<in> set (stack (backHandler w))"
  proof -
    have "0 < length (stack (backHandler w))"
      using present by (rule length_pos_if_in_set)
    then show ?thesis
      using present by (simp add: after length_remove1)
  qed
  show "onScopeDispose True b w = (Inr (), b\<lparr>entry := None\<rparr>, w)"
    if "e \<notin> set (stack (backHandler w))"
    using that assms by (simp add: onScopeDispose_def useBackHandler_remove_def remove_absent)
qed

theorem dispose_removes_only_when_showing_witness:
  "useBackHandler_push (useBackHandler 9) \<lparr>heap = [], backHandler = ready\<rparr>
       = (Inr (), pushed_binding, pushed_world)
   \<and> entry pushed_binding = Some 0
   \<and> 0 \<in> set (stack (backHandler pushed_world))
   \<and> stack (backHandler (snd (snd (onScopeDispose True pushed_binding pushed_world)))) = []
   \<and> stack (backHandler (snd (snd (onScopeDispose False pushed_binding pushed_world)))) = [0]
   \<and> 0 \<notin> set (stack (backHandler popped_world))
   \<and> onScopeDispose True pushed_binding popped_world
       = (Inr (), \<lparr>entry = None, onHide = 9\<rparr>, popped_world)"
  using dispose_removes_only_when_showing [of pushed_binding 0 pushed_world]
    dispose_removes_only_when_showing [of pushed_binding 0 popped_world]
  by (simp add: pushed_binding_def pushed_world_def popped_world_def useBackHandler_push_def
      useBackHandler_def push_eq remove_present onBackPress_nonempty resume_removes
      ready_def init_def initial_def example_options_def emit_def)

text \<open>
  Claim C8 as stated has every disposal with \<open>showing\<close> true shorten the stack by one,
  and every disposal with \<open>showing\<close> false leave the entry registered. After
  \<^verbatim>\<open>push()\<close> and a dispatch that removed the entry, the binding still owns it: the
  disposal with \<open>showing\<close> true leaves the length as it is, and with \<open>showing\<close> false
  the entry is not on the stack.
\<close>

theorem dispose_after_dispatch_keeps_length:
  "useBackHandler_push (useBackHandler 9) \<lparr>heap = [], backHandler = ready\<rparr>
       = (Inr (), pushed_binding, pushed_world)
   \<and> entry pushed_binding = Some 0
   \<and> length (stack (backHandler (snd (snd (onScopeDispose True pushed_binding popped_world)))))
       = length (stack (backHandler popped_world))
   \<and> 0 \<notin> set (stack (backHandler (snd (snd (onScopeDispose False pushed_binding popped_world)))))"
  by (simp add: pushed_binding_def pushed_world_def popped_world_def useBackHandler_push_def
      useBackHandler_def onScopeDispose_def useBackHandler_remove_def push_eq remove_present
      remove_absent onBackPress_nonempty resume_removes
      ready_def init_def initial_def example_options_def emit_def)

text \<open>
  Claim C9, amended. A configured observer is called within \<open>push\<close> and within
  \<open>remove\<close>, after the mutation, with the entry pushed or removed, and its exception
  is the exception of \<open>push\<close> or \<open>remove\<close>. In a removal made by a dispatch the
  observer is called in the same way, and the dispatch is fulfilled whether the observer
  throws or not.
\<close>

theorem observers_get_the_entry:
  assumes "priv_options s = Some opts"
  shows "(\<forall>f. onPush opts = Some f \<longrightarrow>
            push e s = (if fn_throws f then Inl (Thrown (fn_id f)) else Inr (),
                        s\<lparr>stack := stack s @ [e], trace := trace s @ [CallOnPush (fn_id f) e]\<rparr>))
    \<and> (\<forall>g. onRemove opts = Some g \<and> e \<in> set (stack s) \<longrightarrow>
            remove e s = (if fn_throws g then Inl (Thrown (fn_id g)) else Inr (),
                          s\<lparr>stack := remove1 e (stack s),
                             trace := trace s @ [CallOnRemove (fn_id g) e]\<rparr>))
    \<and> (\<forall>g h v. onRemove opts = Some g \<and> stack s \<noteq> []
            \<and> await (h (last (stack s))) = Value v \<and> v \<noteq> Boolean False \<longrightarrow>
            onBackPress h s
              = (Fulfilled,
                 s\<lparr>stack := remove1 (last (stack s)) (stack s),
                    trace := trace s @ [CallHandler (last (stack s)),
                                        CallOnRemove (fn_id g) (last (stack s))]\<rparr>))"
  using assms
  by (auto simp: push_eq remove_present onBackPress_nonempty resume_removes emit_def)

theorem observers_get_the_entry_witness:
  "priv_options (ready\<lparr>priv_options := Some throwing_options\<rparr>) = Some throwing_options
   \<and> push 7 (ready\<lparr>priv_options := Some throwing_options\<rparr>)
       = (Inl (Thrown 1),
          \<lparr>stack = [7], priv_options = Some throwing_options, isInitialized = True,
             trace = [CallOnPush 1 7]\<rparr>)
   \<and> remove 7 (ready\<lparr>stack := [7], priv_options := Some throwing_options\<rparr>)
       = (Inl (Thrown 2),
          \<lparr>stack = [], priv_options = Some throwing_options, isInitialized = True,
             trace = [CallOnRemove 2 7]\<rparr>)
   \<and> onBackPress (\<lambda>e. Resolves (Boolean True))
         (ready\<lparr>stack := [7], priv_options := Some throwing_options\<rparr>)
       = (Fulfilled,
          \<lparr>stack = [], priv_options = Some throwing_options, isInitialized = True,
             trace = [CallHandler 7, CallOnRemove 2 7]\<rparr>)"
  using observers_get_the_entry
      [of "ready\<lparr>priv_options := Some throwing_options\<rparr>" throwing_options 7]
    observers_get_the_entry
      [of "ready\<lparr>stack := [7], priv_options := Some throwing_options\<rparr>" throwing_options 7]
  by (simp add: ready_def init_def initial_def throwing_options_def)

text \<open>
  Claim C9 as stated has the observer's exception leave a dispatch. Here \<open>onRemove\<close>
  throws and the dispatch is fulfilled.
\<close>

theorem dispatch_swallows_observer_exception:
  "fn_throws (the (onRemove throwing_options))
   \<and> onBackPress (\<lambda>e. Returns Undefined) (initial\<lparr>stack := [7], priv_options := Some throwing_options, isInitialized := True\<rparr>)
       = (Fulfilled,
          \<lparr>stack = [], priv_options = Some throwing_options, isInitialized = True,
             trace = [CallHandler 7, CallOnRemove 2 7]\<rparr>)"
  by (simp add: onBackPress_nonempty resume_removes remove_present emit_def initial_def
      throwing_options_def)

text \<open>
  Claim C10. \<open>push\<close> before \<open>init\<close> throws the not-initialized error after it has
  appended the entry: the stack of the state it leaves holds the entry.
\<close>

theorem push_before_init_not_atomic:
  "priv_options s = None \<Longrightarrow> push e s = (Inl NotInitialized, s\<lparr>stack := stack s @ [e]\<rparr>)"
  by (simp add: push_eq)

theorem push_before_init_not_atomic_witness:
  "priv_options initial = None
   \<and> push 7 initial = (Inl NotInitialized, initial\<lparr>stack := stack initial @ [7]\<rparr>)
   \<and> stack (snd (push 7 initial)) = [7]"
  using push_before_init_not_atomic [of initial 7] by (simp add: initial_def)

end
